theory Spec2Isabelle
  imports Main
begin

section \<open>Values handed to the components by their collaborators\<close>

text \<open>
  Both components of the repository (\<^verbatim>\<open>Dashboard\<close> in
  \<^verbatim>\<open>apps/web/src/app/dashboard/page.tsx\<close> and \<^verbatim>\<open>Header\<close>) are React function
  components. On every render they read three hooks:
  \<^verbatim>\<open>authClient.useSession()\<close> (fields \<^verbatim>\<open>data\<close>, renamed \<^verbatim>\<open>session\<close>, and
  \<^verbatim>\<open>isPending\<close>), \<^verbatim>\<open>useRouter()\<close> and, for the dashboard only,
  \<^verbatim>\<open>useQuery(orpc.privateData.queryOptions())\<close>.

  JavaScript objects are compared by identity in a dependency array, so every object
  carries a reference.
\<close>

type_synonym ref = nat

record user =
  name :: string

record session =
  sref :: ref
  user :: user

text \<open>
  One render sees one \<open>frame\<close>: the values the hooks return during that render.
  \<open>session = None\<close> is JavaScript's \<^verbatim>\<open>null\<close>; \<open>privateData\<close> is
  \<^verbatim>\<open>privateData.data?.message\<close>, \<open>None\<close> when it is \<^verbatim>\<open>undefined\<close>.
\<close>

record frame =
  session :: "session option"
  isPending :: bool
  router :: ref
  privateData :: "string option"

section \<open>Rendered output and calls made on collaborators\<close>

datatype node =
    Loader
  | ModeToggle
  | UserMenu
  | Text string
  | Link string string string
  | Elem string string "node list"

text \<open>
  \<open>Link key href label\<close> is \<^verbatim>\<open><Link key={to} href={to}>{label}</Link>\<close>;
  \<open>Elem tag className children\<close> is a host element.
\<close>

datatype call = Push string | UseQuery string

section \<open>The effect hook\<close>

text \<open>
  A dependency array holds \<^verbatim>\<open>null\<close>, object references and booleans.
  \<^verbatim>\<open>Object.is\<close> on these values is equality of the reference or of the boolean.
\<close>

datatype dep = DNull | DObj ref | DBool bool

fun dep_of_session :: "session option \<Rightarrow> dep" where
  "dep_of_session None = DNull"
| "dep_of_session (Some s) = DObj (sref s)"

definition objectIs :: "dep \<Rightarrow> dep \<Rightarrow> bool" where
  "objectIs a b = (a = b)"

fun areHookInputsEqual :: "dep list \<Rightarrow> dep list \<Rightarrow> bool" where
  "areHookInputsEqual (a # as) (b # bs) = (objectIs a b \<and> areHookInputsEqual as bs)"
| "areHookInputsEqual _ _ = True"

text \<open>
  The only hook with memory in either component is the single \<^verbatim>\<open>useEffect\<close>: React keeps
  the dependency array of the previous render, and nothing before the first render.
  \<open>useEffect m deps body\<close> gives the calls the effect makes after this render (those of
  \<open>body\<close> when the component has just mounted or a dependency changed, none otherwise)
  and the memory for the next render.
\<close>

type_synonym memo = "dep list option"

definition useEffect :: "memo \<Rightarrow> dep list \<Rightarrow> call list \<Rightarrow> call list \<times> memo" where
  "useEffect m deps body =
     ((case m of
         None \<Rightarrow> body
       | Some prev \<Rightarrow> if areHookInputsEqual deps prev then [] else body),
      Some deps)"

text \<open>Whether the effect's body runs after this render.\<close>

definition effect_runs :: "memo \<Rightarrow> dep list \<Rightarrow> bool" where
  "effect_runs m deps = (case m of None \<Rightarrow> True | Some prev \<Rightarrow> \<not> areHookInputsEqual deps prev)"

record rendering =
  rendered :: "node option"
  calls :: "call list"
  memo :: memo

section \<open>Dashboard\<close>

text \<open>
  \<^verbatim>\<open>
  useEffect(() => {
    if (!session && !isPending) { router.push("/login"); }
  }, [session, isPending, router]);
  \<close>
  The same effect, with the same dependency array, is in both components.
\<close>

definition redirect_effect :: "frame \<Rightarrow> call list" where
  "redirect_effect f = (if session f = None \<and> \<not> isPending f then [Push ''/login''] else [])"

definition effect_deps :: "frame \<Rightarrow> dep list" where
  "effect_deps f = [dep_of_session (session f), DBool (isPending f), DObj (router f)]"

definition Dashboard_view :: "session \<Rightarrow> string option \<Rightarrow> node" where
  "Dashboard_view s msg =
     Elem ''div'' ''''
       [Elem ''h1'' '''' [Text ''Dashboard''],
        Elem ''p'' '''' [Text ''Welcome '', Text (name (user s))],
        Elem ''p'' '''' (Text ''privateData: '' # (case msg of None \<Rightarrow> [] | Some t \<Rightarrow> [Text t]))]"

definition Dashboard :: "frame \<Rightarrow> memo \<Rightarrow> rendering" where
  "Dashboard f m =
     (let q = [UseQuery ''privateData''];
          (eff, m') = useEffect m (effect_deps f) (redirect_effect f)
      in \<lparr> rendered =
             (if isPending f then Some Loader
              else case session f of
                     None \<Rightarrow> None
                   | Some s \<Rightarrow> Some (Dashboard_view s (privateData f))),
           calls = q @ eff,
           memo = m' \<rparr>)"

section \<open>Header\<close>

record navlink =
  to :: string
  label :: string

definition links :: "session option \<Rightarrow> navlink list" where
  "links s =
     [\<lparr> to = ''/'', label = ''Home'' \<rparr>] @
     (if s \<noteq> None
      then [\<lparr> to = ''/dashboard'', label = ''Dashboard'' \<rparr>,
            \<lparr> to = ''/todos'', label = ''Todos'' \<rparr>]
      else [])"

definition Header_view :: "navlink list \<Rightarrow> node" where
  "Header_view ls =
     Elem ''div'' ''''
       [Elem ''div'' ''flex flex-row items-center justify-between px-2 py-1''
          [Elem ''nav'' ''flex gap-4 text-lg'' (map (\<lambda>l. Link (to l) (to l) (label l)) ls),
           Elem ''div'' ''flex items-center gap-2'' [ModeToggle, UserMenu]],
        Elem ''hr'' '''' []]"

definition Header :: "frame \<Rightarrow> memo \<Rightarrow> rendering" where
  "Header f m =
     (let (eff, m') = useEffect m (effect_deps f) (redirect_effect f)
      in \<lparr> rendered =
             (if isPending f then Some Loader
              else Some (Header_view (links (session f)))),
           calls = eff,
           memo = m' \<rparr>)"

section \<open>A mounted component over a sequence of renders\<close>

fun run :: "(frame \<Rightarrow> memo \<Rightarrow> rendering) \<Rightarrow> memo \<Rightarrow> frame list \<Rightarrow> rendering list" where
  "run c m [] = []"
| "run c m (f # fs) = c f m # run c (memo (c f m)) fs"

definition mount :: "(frame \<Rightarrow> memo \<Rightarrow> rendering) \<Rightarrow> frame list \<Rightarrow> rendering list" where
  "mount c fs = run c None fs"

fun is_push :: "call \<Rightarrow> bool" where
  "is_push (Push p) = True"
| "is_push (UseQuery k) = False"

definition pushes :: "rendering list \<Rightarrow> call list" where
  "pushes rs = filter is_push (concat (map calls rs))"

text \<open>
  The dashboard route shows the header and the dashboard together; each is its own
  component instance with its own effect memory, and both see the same frames.
\<close>

definition core_pushes :: "frame list \<Rightarrow> call list" where
  "core_pushes fs = pushes (mount Header fs) @ pushes (mount Dashboard fs)"

section \<open>Reading the output\<close>

fun links_of :: "node \<Rightarrow> navlink list" where
  "links_of (Link k h l) = [\<lparr> to = h, label = l \<rparr>]"
| "links_of (Elem t c ns) = concat (map links_of ns)"
| "links_of _ = []"

definition visible_links :: "node option \<Rightarrow> navlink list" where
  "visible_links out = (case out of None \<Rightarrow> [] | Some n \<Rightarrow> links_of n)"

section \<open>The specification's vocabulary\<close>

datatype SessionState = Pending | Unauthenticated | Authenticated session

definition state_of :: "frame \<Rightarrow> SessionState" where
  "state_of f =
     (if isPending f then Pending
      else case session f of None \<Rightarrow> Unauthenticated | Some s \<Rightarrow> Authenticated s)"

definition is_unauth :: "frame \<Rightarrow> bool" where
  "is_unauth f = (state_of f = Unauthenticated)"

text \<open>
  The number of transitions into \<open>Unauthenticated\<close> along a sequence of observations:
  an observation counts when it is \<open>Unauthenticated\<close> and the one before it (if any) is
  not. \<open>prev\<close> says whether the observation before the sequence was \<open>Unauthenticated\<close>.
\<close>

fun entries :: "bool \<Rightarrow> frame list \<Rightarrow> nat" where
  "entries prev [] = 0"
| "entries prev (f # fs) =
     (if is_unauth f \<and> \<not> prev then 1 else 0) + entries (is_unauth f) fs"

definition baseLinks :: "navlink list" where
  "baseLinks = [\<lparr> to = ''/'', label = ''Home'' \<rparr>]"

definition gatedLinks :: "navlink list" where
  "gatedLinks = [\<lparr> to = ''/dashboard'', label = ''Dashboard'' \<rparr>,
                 \<lparr> to = ''/todos'', label = ''Todos'' \<rparr>]"

fun computeLinks :: "SessionState \<Rightarrow> navlink list \<Rightarrow> navlink list \<Rightarrow> navlink list" where
  "computeLinks (Authenticated s) base gated = base @ gated"
| "computeLinks _ base gated = base"

section \<open>Example observations\<close>

definition alice :: session where
  "alice = \<lparr> sref = 1, user = \<lparr> name = ''Alice'' \<rparr> \<rparr>"

definition frame_pending :: frame where
  "frame_pending = \<lparr> session = None, isPending = True, router = 0, privateData = None \<rparr>"

definition frame_unauth :: frame where
  "frame_unauth = \<lparr> session = None, isPending = False, router = 0, privateData = None \<rparr>"

definition frame_auth :: frame where
  "frame_auth = \<lparr> session = Some alice, isPending = False, router = 0, privateData = Some ''hello'' \<rparr>"

definition frame_refreshing :: frame where
  "frame_refreshing = \<lparr> session = Some alice, isPending = True, router = 0, privateData = None \<rparr>"


section \<open>Facts about one render\<close>

lemma useEffect_calls: "fst (useEffect m deps body) = (if effect_runs m deps then body else [])"
  by (simp add: useEffect_def effect_runs_def split: option.split)

lemma useEffect_memo: "snd (useEffect m deps body) = Some deps"
  by (simp add: useEffect_def)

lemma Dashboard_rendered:
  "rendered (Dashboard f m) =
     (if isPending f then Some Loader
      else case session f of None \<Rightarrow> None | Some s \<Rightarrow> Some (Dashboard_view s (privateData f)))"
  by (simp add: Dashboard_def Let_def case_prod_beta)

lemma Dashboard_calls:
  "calls (Dashboard f m) =
     UseQuery ''privateData'' # (if effect_runs m (effect_deps f) then redirect_effect f else [])"
  by (simp add: Dashboard_def Let_def case_prod_beta useEffect_calls)

lemma Dashboard_memo: "memo (Dashboard f m) = Some (effect_deps f)"
  by (simp add: Dashboard_def Let_def case_prod_beta useEffect_memo)

lemma Header_rendered:
  "rendered (Header f m) =
     (if isPending f then Some Loader else Some (Header_view (links (session f))))"
  by (simp add: Header_def Let_def case_prod_beta)

lemma Header_calls:
  "calls (Header f m) = (if effect_runs m (effect_deps f) then redirect_effect f else [])"
  by (simp add: Header_def Let_def case_prod_beta useEffect_calls)

lemma Header_memo: "memo (Header f m) = Some (effect_deps f)"
  by (simp add: Header_def Let_def case_prod_beta useEffect_memo)

lemma is_unauth_iff: "is_unauth f = (session f = None \<and> \<not> isPending f)"
  by (simp add: is_unauth_def state_of_def split: option.split)

lemma redirect_effect_unauth:
  "redirect_effect f = (if is_unauth f then [Push ''/login''] else [])"
  by (simp add: redirect_effect_def is_unauth_iff)

lemma deps_equal_iff:
  "areHookInputsEqual (effect_deps f) (effect_deps g) =
     (dep_of_session (session f) = dep_of_session (session g) \<and>
      isPending f = isPending g \<and> router f = router g)"
  by (simp add: effect_deps_def objectIs_def)

lemma dep_of_session_null: "(dep_of_session x = DNull) = (x = None)"
  by (cases x) simp_all

lemma dep_of_session_null': "(DNull = dep_of_session x) = (x = None)"
  by (cases x) simp_all

lemma unauth_effect_runs:
  assumes "is_unauth f" and "router f = router g"
  shows "effect_runs (Some (effect_deps g)) (effect_deps f) = (\<not> is_unauth g)"
  using assms
  by (auto simp: effect_runs_def deps_equal_iff is_unauth_iff dep_of_session_null')

lemma absent_session_effect_runs:
  assumes "session f = None \<and> \<not> isPending f"
  shows "effect_runs (Some (effect_deps g)) (effect_deps f) =
           (session g \<noteq> None \<or> isPending g \<or> router g \<noteq> router f)"
  using assms
  by (auto simp: effect_runs_def deps_equal_iff dep_of_session_null')

text \<open>The pushes of one render after a render of frame g.\<close>

lemma effect_pushes_after:
  assumes "router f = router g"
  shows "filter is_push (if effect_runs (Some (effect_deps g)) (effect_deps f) then redirect_effect f else [])
         = (if is_unauth f \<and> \<not> is_unauth g then [Push ''/login''] else [])"
proof (cases "is_unauth f")
  case True
  then show ?thesis using unauth_effect_runs [OF True assms]
    by (simp add: redirect_effect_unauth)
next
  case False
  then show ?thesis by (simp add: redirect_effect_unauth)
qed

lemma effect_pushes_mount:
  "filter is_push (if effect_runs None (effect_deps f) then redirect_effect f else [])
     = (if is_unauth f then [Push ''/login''] else [])"
  by (simp add: effect_runs_def redirect_effect_unauth)

lemma pushes_Cons: "pushes (r # rs) = filter is_push (calls r) @ pushes rs"
  by (simp add: pushes_def)

lemma pushes_Nil: "pushes [] = []"
  by (simp add: pushes_def)

lemma run_pushes_after:
  assumes c: "\<And>f m. memo (c f m) = Some (effect_deps f)"
    and p: "\<And>f m. filter is_push (calls (c f m)) =
      filter is_push (if effect_runs m (effect_deps f) then redirect_effect f else [])"
  shows "\<forall>f\<in>set fs. router f = router g \<Longrightarrow>
     pushes (run c (Some (effect_deps g)) fs) = replicate (entries (is_unauth g) fs) (Push ''/login'')"
proof (induction fs arbitrary: g)
  case Nil
  show ?case by (simp add: pushes_Nil)
next
  case (Cons f fs)
  have rf: "router f = router g" using Cons.prems by simp
  have rest: "\<forall>x\<in>set fs. router x = router f" using Cons.prems by simp
  have ih: "pushes (run c (Some (effect_deps f)) fs) = replicate (entries (is_unauth f) fs) (Push ''/login'')"
    by (rule Cons.IH [OF rest])
  have step: "filter is_push (calls (c f (Some (effect_deps g)))) =
     (if is_unauth f \<and> \<not> is_unauth g then [Push ''/login''] else [])"
    by (simp only: p effect_pushes_after [OF rf])
  show ?case
    by (simp add: pushes_Cons c step ih)
qed

lemma run_pushes_mount:
  assumes c: "\<And>f m. memo (c f m) = Some (effect_deps f)"
    and p: "\<And>f m. filter is_push (calls (c f m)) =
      filter is_push (if effect_runs m (effect_deps f) then redirect_effect f else [])"
    and r: "\<forall>f\<in>set fs. router f = r"
  shows "pushes (mount c fs) = replicate (entries False fs) (Push ''/login'')"
proof (cases fs)
  case Nil
  then show ?thesis by (simp add: mount_def pushes_Nil)
next
  case (Cons f fs')
  have rest: "\<forall>x\<in>set fs'. router x = router f" using r Cons by simp
  have tl: "pushes (run c (Some (effect_deps f)) fs') = replicate (entries (is_unauth f) fs') (Push ''/login'')"
    by (rule run_pushes_after [OF c p rest])
  have step: "filter is_push (calls (c f None)) = (if is_unauth f then [Push ''/login''] else [])"
    by (simp only: p effect_pushes_mount)
  show ?thesis
    by (simp add: Cons mount_def pushes_Cons c step tl)
qed

lemma Dashboard_pushes:
  "filter is_push (calls (Dashboard f m)) =
      filter is_push (if effect_runs m (effect_deps f) then redirect_effect f else [])"
  by (simp add: Dashboard_calls)

lemma Header_pushes:
  "filter is_push (calls (Header f m)) =
      filter is_push (if effect_runs m (effect_deps f) then redirect_effect f else [])"
  by (simp add: Header_calls)

lemma Dashboard_mount_pushes:
  "\<forall>f\<in>set fs. router f = r \<Longrightarrow> pushes (mount Dashboard fs) = replicate (entries False fs) (Push ''/login'')"
  by (rule run_pushes_mount [OF Dashboard_memo Dashboard_pushes])

lemma Header_mount_pushes:
  "\<forall>f\<in>set fs. router f = r \<Longrightarrow> pushes (mount Header fs) = replicate (entries False fs) (Push ''/login'')"
  by (rule run_pushes_mount [OF Header_memo Header_pushes])


section \<open>The claims\<close>

lemmas frames = frame_pending_def frame_unauth_def frame_auth_def frame_refreshing_def alice_def

subsection \<open>C1: one redirect per transition into Unauthenticated (Dashboard)\<close>

text \<open>
  C1. Along any sequence of renders of a mounted \<open>Dashboard\<close> (the router reference being
  the same in every render, as \<^verbatim>\<open>useRouter\<close> provides), the calls of \<^verbatim>\<open>router.push\<close> are
  exactly one \<^verbatim>\<open>push("/login")\<close> for each transition of the observed tuple into
  \<open>Unauthenticated\<close>: a repeated \<open>Unauthenticated\<close> observation adds none, and every later
  re-entry adds exactly one.
\<close>

theorem Dashboard_redirects_once_per_transition:
  assumes "\<forall>f\<in>set fs. router f = r"
  shows "pushes (mount Dashboard fs) = replicate (entries False fs) (Push ''/login'')"
  using assms by (rule Dashboard_mount_pushes)

text \<open>
  C1, witness: Pending, Unauthenticated, Unauthenticated (duplicate), Authenticated,
  Pending, Unauthenticated has two transitions and two redirects.
\<close>

theorem Dashboard_redirects_once_per_transition_witness:
  "entries False [frame_pending, frame_unauth, frame_unauth, frame_auth, frame_pending, frame_unauth] = 2 \<and>
   pushes (mount Dashboard [frame_pending, frame_unauth, frame_unauth, frame_auth, frame_pending, frame_unauth])
     = [Push ''/login'', Push ''/login'']"
proof -
  let ?fs = "[frame_pending, frame_unauth, frame_unauth, frame_auth, frame_pending, frame_unauth]"
  have r: "\<forall>f\<in>set ?fs. router f = 0" by (simp add: frames)
  have e: "entries False ?fs = 2" by (simp add: frames is_unauth_iff)
  show ?thesis
    using Dashboard_redirects_once_per_transition [OF r] e
    by (simp add: numeral_2_eq_2)
qed

subsection \<open>C2: the visible link list (Header)\<close>

text \<open>
  C2. When the tuple is not Pending, the links in the header's output are, in order, the
  base links followed by the gated links when a session is present, and the base links
  alone otherwise: \<open>[Home]\<close> when Unauthenticated, \<open>[Home, Dashboard, Todos]\<close> when
  Authenticated.
\<close>

theorem Header_visible_links:
  assumes "\<not> isPending f"
  shows "visible_links (rendered (Header f m)) = computeLinks (state_of f) baseLinks gatedLinks \<and>
         visible_links (rendered (Header f m)) =
           (if session f \<noteq> None
            then [\<lparr> to = ''/'', label = ''Home'' \<rparr>,
                  \<lparr> to = ''/dashboard'', label = ''Dashboard'' \<rparr>,
                  \<lparr> to = ''/todos'', label = ''Todos'' \<rparr>]
            else [\<lparr> to = ''/'', label = ''Home'' \<rparr>])"
  using assms
  by (cases "session f")
     (simp_all add: Header_rendered visible_links_def Header_view_def links_def state_of_def
        baseLinks_def gatedLinks_def)

text \<open>C2, witness: the two examples of the specification.\<close>

theorem Header_visible_links_witness:
  "visible_links (rendered (Header frame_unauth None)) = [\<lparr> to = ''/'', label = ''Home'' \<rparr>] \<and>
   visible_links (rendered (Header frame_auth None)) =
     [\<lparr> to = ''/'', label = ''Home'' \<rparr>,
      \<lparr> to = ''/dashboard'', label = ''Dashboard'' \<rparr>,
      \<lparr> to = ''/todos'', label = ''Todos'' \<rparr>]"
proof -
  have u: "\<not> isPending frame_unauth" by (simp add: frames)
  have a: "\<not> isPending frame_auth" by (simp add: frames)
  show ?thesis
    using Header_visible_links [OF u, of None, THEN conjunct2]
      Header_visible_links [OF a, of None, THEN conjunct2]
    by (simp add: frames)
qed

subsection \<open>C3: the header's side effect\<close>

text \<open>
  C3, counterexample. The header is not free of side effects: mounted on an
  Unauthenticated tuple, its effect calls \<^verbatim>\<open>router.push("/login")\<close>.
\<close>

theorem Header_redirect_counterexample:
  "filter is_push (calls (Header frame_unauth None)) = [Push ''/login'']"
  by (simp add: Header_calls effect_runs_def redirect_effect_def frames)

text \<open>
  C3, as the code has it. What the header renders is a function of the session tuple
  alone: two renders that see the same session and the same isPending give the same
  output, whatever the router, the query result and the effect memory are. The component
  is not free of side effects: its only call on a collaborator is
  \<^verbatim>\<open>router.push("/login")\<close>, made after the first render when the session is absent and
  isPending is false, and after a later render when the session is absent, isPending is
  false and the preceding render saw a session, saw isPending true, or saw another router.
\<close>

theorem Header_output_pure_redirect_on_effect:
  "(session f = session g \<and> isPending f = isPending g \<longrightarrow>
      rendered (Header f m) = rendered (Header g m')) \<and>
   calls (Header f None) =
     (if session f = None \<and> \<not> isPending f then [Push ''/login''] else []) \<and>
   calls (Header f (memo (Header g m))) =
     (if session f = None \<and> \<not> isPending f \<and>
         (session g \<noteq> None \<or> isPending g \<or> router g \<noteq> router f)
      then [Push ''/login''] else [])"
proof (intro conjI impI)
  assume "session f = session g \<and> isPending f = isPending g"
  then show "rendered (Header f m) = rendered (Header g m')"
    by (simp add: Header_rendered)
next
  show "calls (Header f None) =
     (if session f = None \<and> \<not> isPending f then [Push ''/login''] else [])"
    by (simp add: Header_calls effect_runs_def redirect_effect_def)
next
  show "calls (Header f (memo (Header g m))) =
     (if session f = None \<and> \<not> isPending f \<and>
         (session g \<noteq> None \<or> isPending g \<or> router g \<noteq> router f)
      then [Push ''/login''] else [])"
  proof (cases "session f = None \<and> \<not> isPending f")
    case True
    then show ?thesis
      using absent_session_effect_runs [of f g]
      by (simp add: Header_calls Header_memo redirect_effect_def)
  next
    case False
    then show ?thesis
      by (auto simp add: Header_calls redirect_effect_def)
  qed
qed

text \<open>
  C3, witness of the amended statement: the same session tuple seen through another
  router gives the same output; the header redirects when mounted Unauthenticated and
  when a session disappears, and not on a repeated Unauthenticated render.
\<close>

theorem Header_output_pure_redirect_on_effect_witness:
  "rendered (Header frame_auth None) =
     rendered (Header (frame_auth\<lparr>router := 7\<rparr>) (Some (effect_deps frame_pending))) \<and>
   calls (Header frame_unauth None) = [Push ''/login''] \<and>
   calls (Header frame_auth None) = [] \<and>
   calls (Header frame_unauth (memo (Header frame_auth None))) = [Push ''/login''] \<and>
   calls (Header frame_unauth (memo (Header frame_pending None))) = [Push ''/login''] \<and>
   calls (Header frame_unauth (memo (Header frame_unauth None))) = []"
proof -
  have a: "rendered (Header frame_auth None) =
     rendered (Header (frame_auth\<lparr>router := 7\<rparr>) (Some (effect_deps frame_pending)))"
    using Header_output_pure_redirect_on_effect
      [where f = frame_auth and g = "frame_auth\<lparr>router := 7\<rparr>" and m = None
         and m' = "Some (effect_deps frame_pending)"]
    by simp
  have b: "calls (Header frame_unauth None) = [Push ''/login'']"
    using Header_output_pure_redirect_on_effect [where f = frame_unauth and g = frame_unauth]
    by (simp add: frames)
  have c: "calls (Header frame_auth None) = []"
    using Header_output_pure_redirect_on_effect [where f = frame_auth and g = frame_auth]
    by (simp add: frames)
  have d: "calls (Header frame_unauth (memo (Header frame_auth None))) = [Push ''/login'']"
    using Header_output_pure_redirect_on_effect
      [where f = frame_unauth and g = frame_auth and m = None]
    by (simp add: frames)
  have e: "calls (Header frame_unauth (memo (Header frame_pending None))) = [Push ''/login'']"
    using Header_output_pure_redirect_on_effect
      [where f = frame_unauth and g = frame_pending and m = None]
    by (simp add: frames)
  have f: "calls (Header frame_unauth (memo (Header frame_unauth None))) = []"
    using Header_output_pure_redirect_on_effect
      [where f = frame_unauth and g = frame_unauth and m = None]
    by (simp add: frames)
  show ?thesis using a b c d e f by simp
qed

subsection \<open>C4: pushes of all mounted components together\<close>

text \<open>
  C4, counterexample. With the header and the dashboard mounted, Pending followed by
  Unauthenticated is one transition, and \<^verbatim>\<open>router.push\<close> is called twice.
\<close>

theorem core_push_counterexample:
  "\<not> length (core_pushes [frame_pending, frame_unauth]) \<le> entries False [frame_pending, frame_unauth]"
  by (simp add: core_pushes_def mount_def pushes_def Header_calls Header_memo Dashboard_calls
      Dashboard_memo effect_runs_def effect_deps_def objectIs_def redirect_effect_def
      is_unauth_iff frames)

text \<open>
  C4, as the code has it. For every transition into Unauthenticated each mounted component
  calls \<^verbatim>\<open>router.push\<close> exactly once; the header and the dashboard together call it
  twice.
\<close>

theorem core_pushes_once_per_component:
  assumes "\<forall>f\<in>set fs. router f = r"
  shows "length (pushes (mount Header fs)) = entries False fs \<and>
         length (pushes (mount Dashboard fs)) = entries False fs \<and>
         length (core_pushes fs) = 2 * entries False fs"
  using Header_mount_pushes [OF assms] Dashboard_mount_pushes [OF assms]
  by (simp add: core_pushes_def)

text \<open>C4, witness of the amended statement.\<close>

theorem core_pushes_once_per_component_witness:
  "length (pushes (mount Header [frame_pending, frame_unauth, frame_unauth])) = 1 \<and>
   length (pushes (mount Dashboard [frame_pending, frame_unauth, frame_unauth])) = 1 \<and>
   length (core_pushes [frame_pending, frame_unauth, frame_unauth]) = 2"
proof -
  let ?fs = "[frame_pending, frame_unauth, frame_unauth]"
  have r: "\<forall>f\<in>set ?fs. router f = 0" by (simp add: frames)
  have e: "entries False ?fs = 1" by (simp add: frames is_unauth_iff)
  show ?thesis
    using core_pushes_once_per_component [OF r] e by simp
qed

subsection \<open>C5: no session, resolution complete (Dashboard)\<close>

text \<open>
  C5. With the session absent the dashboard never renders its protected content: it
  renders the loader while Pending and nothing (\<^verbatim>\<open>null\<close>) once resolution is complete.
  In the latter case it redirects to the fixed path \<^verbatim>\<open>/login\<close>: one
  \<^verbatim>\<open>router.push("/login")\<close> after the first render, and one after a later render
  whenever the preceding render saw a session, saw isPending true, or saw another router
  (none on a repeated observation of the same tuple). A failed resolution reaches the
  component as the same tuple (no session, not pending).
\<close>

theorem Dashboard_fails_closed:
  assumes "session f = None"
  shows "(\<not> isPending f \<longrightarrow>
            rendered (Dashboard f m) = None \<and>
            filter is_push (calls (Dashboard f None)) = [Push ''/login''] \<and>
            filter is_push (calls (Dashboard f (memo (Dashboard g m)))) =
              (if session g \<noteq> None \<or> isPending g \<or> router g \<noteq> router f
               then [Push ''/login''] else []) \<and>
            filter is_push (calls (Dashboard f m)) =
              (if effect_runs m (effect_deps f) then [Push ''/login''] else [])) \<and>
         (isPending f \<longrightarrow> rendered (Dashboard f m) = Some Loader) \<and>
         rendered (Dashboard f m) \<noteq> Some (Dashboard_view s msg)"
proof (intro conjI impI)
  assume p: "\<not> isPending f"
  show "rendered (Dashboard f m) = None"
    using assms p by (simp add: Dashboard_rendered)
  show "filter is_push (calls (Dashboard f None)) = [Push ''/login'']"
    using assms p by (simp add: Dashboard_calls effect_runs_def redirect_effect_def)
  show "filter is_push (calls (Dashboard f (memo (Dashboard g m)))) =
      (if session g \<noteq> None \<or> isPending g \<or> router g \<noteq> router f
       then [Push ''/login''] else [])"
    using assms p absent_session_effect_runs [of f g]
    by (simp add: Dashboard_calls Dashboard_memo redirect_effect_def)
  show "filter is_push (calls (Dashboard f m)) =
      (if effect_runs m (effect_deps f) then [Push ''/login''] else [])"
    using assms p by (simp add: Dashboard_calls redirect_effect_def)
next
  assume "isPending f"
  then show "rendered (Dashboard f m) = Some Loader"
    by (simp add: Dashboard_rendered)
next
  show "rendered (Dashboard f m) \<noteq> Some (Dashboard_view s msg)"
    using assms by (simp add: Dashboard_rendered Dashboard_view_def)
qed

text \<open>
  C5, witness: on an Unauthenticated tuple the dashboard renders nothing, and it
  redirects to \<^verbatim>\<open>/login\<close> when mounted so, after Pending, and after Authenticated
  (a logout); a repeated Unauthenticated render does not redirect again.
\<close>

theorem Dashboard_fails_closed_witness:
  "rendered (Dashboard frame_unauth (memo (Dashboard frame_pending None))) = None \<and>
   filter is_push (calls (Dashboard frame_unauth None)) = [Push ''/login''] \<and>
   filter is_push (calls (Dashboard frame_unauth (memo (Dashboard frame_pending None))))
     = [Push ''/login''] \<and>
   filter is_push (calls (Dashboard frame_unauth (memo (Dashboard frame_auth None))))
     = [Push ''/login''] \<and>
   filter is_push (calls (Dashboard frame_unauth (memo (Dashboard frame_unauth None)))) = []"
proof -
  have n: "session frame_unauth = None" by (simp add: frames)
  have p: "\<not> isPending frame_unauth" by (simp add: frames)
  have a: "rendered (Dashboard frame_unauth (memo (Dashboard frame_pending None))) = None"
    using Dashboard_fails_closed [OF n, where m = "memo (Dashboard frame_pending None)"] p
    by simp
  have b: "filter is_push (calls (Dashboard frame_unauth None)) = [Push ''/login'']"
    using Dashboard_fails_closed [OF n, where g = frame_unauth and m = None] p
    by (simp add: effect_runs_def)
  have c: "filter is_push (calls (Dashboard frame_unauth (memo (Dashboard frame_pending None))))
     = [Push ''/login'']"
    using Dashboard_fails_closed [OF n, where g = frame_pending and m = None] p
    by (simp add: frames)
  have d: "filter is_push (calls (Dashboard frame_unauth (memo (Dashboard frame_auth None))))
     = [Push ''/login'']"
    using Dashboard_fails_closed [OF n, where g = frame_auth and m = None] p
    by (simp add: frames)
  have e: "filter is_push (calls (Dashboard frame_unauth (memo (Dashboard frame_unauth None)))) = []"
    using Dashboard_fails_closed [OF n, where g = frame_unauth and m = None] p
    by (simp add: frames)
  show ?thesis using a b c d e by simp
qed

subsection \<open>C6: Authenticated (Dashboard)\<close>

text \<open>
  C6. With a session present and isPending false the dashboard renders the protected
  view, which shows the display name of exactly that session's user, and its only call
  is the query hook: \<^verbatim>\<open>router.push\<close> is not called.
\<close>

theorem Dashboard_authenticated:
  assumes "session f = Some s" and "\<not> isPending f"
  shows "rendered (Dashboard f m) =
           Some (Elem ''div'' ''''
                  [Elem ''h1'' '''' [Text ''Dashboard''],
                   Elem ''p'' '''' [Text ''Welcome '', Text (name (user s))],
                   Elem ''p'' ''''
                     (Text ''privateData: '' #
                      (case privateData f of None \<Rightarrow> [] | Some t \<Rightarrow> [Text t]))]) \<and>
         calls (Dashboard f m) = [UseQuery ''privateData'']"
  using assms
  by (simp add: Dashboard_rendered Dashboard_calls redirect_effect_def Dashboard_view_def)

text \<open>C6, witness: Pending then Authenticated(Alice).\<close>

theorem Dashboard_authenticated_witness:
  "rendered (Dashboard frame_auth (memo (Dashboard frame_pending None))) =
     Some (Elem ''div'' ''''
            [Elem ''h1'' '''' [Text ''Dashboard''],
             Elem ''p'' '''' [Text ''Welcome '', Text ''Alice''],
             Elem ''p'' '''' [Text ''privateData: '', Text ''hello'']]) \<and>
   calls (Dashboard frame_auth (memo (Dashboard frame_pending None))) = [UseQuery ''privateData'']"
proof -
  have s: "session frame_auth = Some alice" by (simp add: frames)
  have p: "\<not> isPending frame_auth" by (simp add: frames)
  show ?thesis
    using Dashboard_authenticated [OF s p, of "memo (Dashboard frame_pending None)"]
    by (simp add: frames)
qed

subsection \<open>C7: Pending (both components)\<close>

text \<open>
  C7, counterexample. While Pending the dashboard does take another action besides
  rendering the loader: its render calls the query hook for \<^verbatim>\<open>privateData\<close>, which
  stands before the \<^verbatim>\<open>isPending\<close> test.
\<close>

theorem pending_Dashboard_query_counterexample:
  "isPending frame_pending \<and>
   calls (Dashboard frame_pending None) = [UseQuery ''privateData''] \<and>
   calls (Dashboard frame_pending None) \<noteq> []"
  by (simp add: Dashboard_calls effect_runs_def redirect_effect_def frames)

text \<open>
  C7, as the code has it. While isPending is true both components render the loader;
  neither calls \<^verbatim>\<open>router.push\<close>, and the header's output holds no link at all. The header
  makes no call; the dashboard makes exactly one, the query hook for \<^verbatim>\<open>privateData\<close>.
\<close>

theorem pending_renders_loader_only:
  assumes "isPending f"
  shows "rendered (Dashboard f m) = Some Loader \<and>
         rendered (Header f m') = Some Loader \<and>
         calls (Dashboard f m) = [UseQuery ''privateData''] \<and>
         calls (Header f m') = [] \<and>
         visible_links (rendered (Header f m')) = []"
  using assms
  by (simp add: Dashboard_rendered Dashboard_calls Header_rendered Header_calls
      redirect_effect_def visible_links_def)

text \<open>C7, witness of the amended statement: the first render, on a Pending tuple.\<close>

theorem pending_renders_loader_only_witness:
  "rendered (Dashboard frame_pending None) = Some Loader \<and>
   rendered (Header frame_pending None) = Some Loader \<and>
   calls (Dashboard frame_pending None) = [UseQuery ''privateData''] \<and>
   calls (Header frame_pending None) = [] \<and>
   visible_links (rendered (Header frame_pending None)) = []"
proof -
  have p: "isPending frame_pending" by (simp add: frames)
  show ?thesis by (rule pending_renders_loader_only [OF p])
qed

subsection \<open>C8: the gated links\<close>

text \<open>
  C8. No gated link (Dashboard, Todos) is in the header's output while the state is
  Pending or Unauthenticated; when the state is Authenticated all of them are.
\<close>

theorem gated_links_only_when_authenticated:
  "(state_of f = Pending \<or> state_of f = Unauthenticated \<longrightarrow>
      set gatedLinks \<inter> set (visible_links (rendered (Header f m))) = {}) \<and>
   (state_of f = Authenticated s \<longrightarrow>
      set gatedLinks \<subseteq> set (visible_links (rendered (Header f m))))"
  by (cases "session f")
     (simp_all add: Header_rendered visible_links_def Header_view_def links_def state_of_def
        gatedLinks_def)

text \<open>C8, witness: one tuple of each state.\<close>

theorem gated_links_only_when_authenticated_witness:
  "set gatedLinks \<inter> set (visible_links (rendered (Header frame_pending None))) = {} \<and>
   set gatedLinks \<inter> set (visible_links (rendered (Header frame_unauth None))) = {} \<and>
   set gatedLinks \<subseteq> set (visible_links (rendered (Header frame_auth None)))"
proof -
  have p: "state_of frame_pending = Pending" by (simp add: state_of_def frames)
  have u: "state_of frame_unauth = Unauthenticated" by (simp add: state_of_def frames)
  have a: "state_of frame_auth = Authenticated alice" by (simp add: state_of_def frames)
  show ?thesis
    using gated_links_only_when_authenticated [where f = frame_pending and m = None and s = alice]
      gated_links_only_when_authenticated [where f = frame_unauth and m = None and s = alice]
      gated_links_only_when_authenticated [where f = frame_auth and m = None and s = alice]
      p u a
    by simp
qed

subsection \<open>C9: the private-data query\<close>

text \<open>
  C9. Every render of the dashboard calls the query hook for \<^verbatim>\<open>privateData\<close>, first and
  whatever the session tuple is: also while Pending and while Unauthenticated.
\<close>

theorem Dashboard_always_queries_privateData:
  "take 1 (calls (Dashboard f m)) = [UseQuery ''privateData''] \<and>
   list_all (\<lambda>r. take 1 (calls r) = [UseQuery ''privateData'']) (run Dashboard m fs)"
proof
  show "take 1 (calls (Dashboard f m)) = [UseQuery ''privateData'']"
    by (simp add: Dashboard_calls)
  show "list_all (\<lambda>r. take 1 (calls r) = [UseQuery ''privateData'']) (run Dashboard m fs)"
    by (induction fs arbitrary: m) (simp_all add: Dashboard_calls)
qed

text \<open>C9, witness: renders on a Pending and on an Unauthenticated tuple.\<close>

theorem Dashboard_always_queries_privateData_witness:
  "take 1 (calls (Dashboard frame_pending None)) = [UseQuery ''privateData''] \<and>
   take 1 (calls (Dashboard frame_unauth None)) = [UseQuery ''privateData'']"
  using Dashboard_always_queries_privateData [of frame_pending None "[]"]
    Dashboard_always_queries_privateData [of frame_unauth None "[]"]
  by simp

subsection \<open>C10: isPending decides before the session is looked at\<close>

text \<open>
  C10. When isPending is true, whatever the session value is (also a present session),
  the state is Pending, both components render the loader, the dashboard does not render
  its protected view, the header shows no link, and neither calls \<^verbatim>\<open>router.push\<close>.
\<close>

theorem pending_overrides_session:
  assumes "isPending f"
  shows "state_of (f\<lparr>session := sv\<rparr>) = Pending \<and>
         rendered (Dashboard (f\<lparr>session := sv\<rparr>) m) = Some Loader \<and>
         rendered (Header (f\<lparr>session := sv\<rparr>) m') = Some Loader \<and>
         filter is_push (calls (Dashboard (f\<lparr>session := sv\<rparr>) m)) = [] \<and>
         filter is_push (calls (Header (f\<lparr>session := sv\<rparr>) m')) = [] \<and>
         set gatedLinks \<inter> set (visible_links (rendered (Header (f\<lparr>session := sv\<rparr>) m'))) = {}"
  using assms
  by (simp add: state_of_def Dashboard_rendered Dashboard_calls Header_rendered Header_calls
      redirect_effect_def visible_links_def)

text \<open>C10, witness: a present session with isPending true.\<close>

theorem pending_overrides_session_witness:
  "session frame_refreshing = Some alice \<and>
   rendered (Dashboard frame_refreshing None) = Some Loader \<and>
   rendered (Header frame_refreshing None) = Some Loader \<and>
   filter is_push (calls (Dashboard frame_refreshing None)) = [] \<and>
   filter is_push (calls (Header frame_refreshing None)) = []"
proof -
  have p: "isPending frame_pending" by (simp add: frames)
  have e: "frame_pending\<lparr>session := Some alice\<rparr> = frame_refreshing" by (simp add: frames)
  show ?thesis
    using pending_overrides_session [OF p, of "Some alice" None None] e
    by (simp add: frame_refreshing_def)
qed

end
